theory Spec2Isabelle
  imports Complex_Main "HOL-Library.Word" "HOL-Library.Monad_Syntax"
begin

section \<open>C library functions on floating values\<close>

text \<open>
  In the rotation kernel and the environment model the floating types of the sources are
  read as the real numbers: every arithmetic operation is the exact one, so rounding
  error, NaN and infinities are outside the model there. The C library functions the
  sources call are modelled by their mathematical definitions: truncation toward zero (the
  conversion of a floating value to an integer type), \<open>fmod\<close> (the remainder \<open>a - n * b\<close>
  with \<open>n\<close> the quotient truncated toward zero), \<open>asin\<close> (defined on \<open>[-1, 1]\<close>, NaN
  elsewhere, which is \<open>None\<close> here) and the two-argument arc tangent \<open>atan2(y, x)\<close>, the
  angle of the point \<open>(x, y)\<close> in \<open>(-\<pi>, \<pi>]\<close>, with \<open>atan2(0, 0) = 0\<close>.
\<close>

definition trunc_toward_zero :: "real \<Rightarrow> int" where
  "trunc_toward_zero r = (if 0 \<le> r then \<lfloor>r\<rfloor> else \<lceil>r\<rceil>)"

definition fmod :: "real \<Rightarrow> real \<Rightarrow> real" where
  "fmod a b = a - b * of_int (trunc_toward_zero (a / b))"

definition asin_c :: "real \<Rightarrow> real option" where
  "asin_c r = (if - 1 \<le> r \<and> r \<le> 1 then Some (arcsin r) else None)"

definition atan2 :: "real \<Rightarrow> real \<Rightarrow> real" where
  "atan2 y' x' =
     (if 0 < x' then arctan (y' / x')
      else if x' < 0 then (if 0 \<le> y' then arctan (y' / x') + pi else arctan (y' / x') - pi)
      else if 0 < y' then pi / 2
      else if y' < 0 then - (pi / 2)
      else 0)"

subsection \<open>Single-precision arithmetic\<close>

text \<open>
  The controller converts \<open>float\<close> values to 16-bit integers, where the rounding of each
  single-precision operation decides the integer. There a \<open>float\<close> is the real number it
  stands for, and each operation returns the exact result rounded to the nearest IEEE 754
  binary32 value, ties to the even significand: 24 significant bits, and a spacing of
  \<open>2 ^ - 149\<close> below \<open>2 ^ - 126\<close>. A result beyond the largest finite binary32 value is
  kept as a finite number here where IEEE 754 gives an infinity; both are beyond the range
  of every conversion to an integer that follows, which is undefined on them. NaN is
  outside the model. The operands the program supplies are binary32 values; the
  operations are defined on every real.
\<close>

definition round_half_even :: "real \<Rightarrow> int" where
  "round_half_even r =
     (let f = \<lfloor>r\<rfloor>; d = r - of_int f in
      if d < 1 / 2 then f
      else if 1 / 2 < d then f + 1
      else if even f then f else f + 1)"

definition binary32_exponent :: "real \<Rightarrow> int" where
  "binary32_exponent r = max (- 126) \<lfloor>log 2 \<bar>r\<bar>\<rfloor>"

definition round_binary32 :: "real \<Rightarrow> real" where
  "round_binary32 r =
     (if r = 0 then 0
      else let ulp = power_int 2 (binary32_exponent r - 23)
           in of_int (round_half_even (r / ulp)) * ulp)"

definition fadd :: "real \<Rightarrow> real \<Rightarrow> real" where
  "fadd a b = round_binary32 (a + b)"

definition fmul :: "real \<Rightarrow> real \<Rightarrow> real" where
  "fmul a b = round_binary32 (a * b)"

definition fdiv :: "real \<Rightarrow> real \<Rightarrow> real" where
  "fdiv a b = round_binary32 (a / b)"

definition uint_to_float :: "32 word \<Rightarrow> real" where
  "uint_to_float n = round_binary32 (real (unat n))"

section \<open>Rotation/transform kernel (common/VectorMath.hpp)\<close>

text \<open>
  \<open>VectorMathT\<close> is a template over \<open>Vector3T\<close>, \<open>QuaternionT\<close> and \<open>RealT\<close>, instantiated
  with Eigen's vectors and quaternions over \<open>float\<close> or \<open>double\<close>; \<open>RealT\<close> is \<open>real\<close>
  here. A quaternion is built in Eigen's constructor order \<open>(w, x, y, z)\<close>.
\<close>

datatype Vector3T = Vector3T (vx: real) (vy: real) (vz: real)

datatype QuaternionT = QuaternionT (qw: real) (qx: real) (qy: real) (qz: real)

record Pose =
  position :: Vector3T
  orientation :: QuaternionT

text \<open>Eigen's vector operations used by the kernel: \<open>a + b\<close>, \<open>s * a\<close>, \<open>a.cross(b)\<close>.\<close>

definition vec_add :: "Vector3T \<Rightarrow> Vector3T \<Rightarrow> Vector3T" where
  "vec_add a b = Vector3T (vx a + vx b) (vy a + vy b) (vz a + vz b)"

definition vec_scale :: "real \<Rightarrow> Vector3T \<Rightarrow> Vector3T" where
  "vec_scale s a = Vector3T (s * vx a) (s * vy a) (s * vz a)"

definition cross :: "Vector3T \<Rightarrow> Vector3T \<Rightarrow> Vector3T" where
  "cross a b = Vector3T (vy a * vz b - vz a * vy b)
                        (vz a * vx b - vx a * vz b)
                        (vx a * vy b - vy a * vx b)"

text \<open>Eigen's quaternion operations: \<open>q.vec()\<close>, \<open>q.conjugate()\<close>, \<open>q.squaredNorm()\<close>,
  \<open>q.inverse()\<close> (the zero quaternion when the squared norm is not positive) and
  \<open>q._transformVector(v)\<close>, which Eigen computes as \<open>v + w * uv + vec \<times> uv\<close> with
  \<open>uv = 2 * (vec \<times> v)\<close>.\<close>

definition vec :: "QuaternionT \<Rightarrow> Vector3T" where
  "vec q = Vector3T (qx q) (qy q) (qz q)"

definition conjugate :: "QuaternionT \<Rightarrow> QuaternionT" where
  "conjugate q = QuaternionT (qw q) (- qx q) (- qy q) (- qz q)"

definition squaredNorm :: "QuaternionT \<Rightarrow> real" where
  "squaredNorm q = qw q * qw q + qx q * qx q + qy q * qy q + qz q * qz q"

definition inverse_q :: "QuaternionT \<Rightarrow> QuaternionT" where
  "inverse_q q =
     (let n2 = squaredNorm q in
      if n2 > 0
      then QuaternionT (qw (conjugate q) / n2) (qx (conjugate q) / n2)
                       (qy (conjugate q) / n2) (qz (conjugate q) / n2)
      else QuaternionT 0 0 0 0)"

definition transformVector :: "QuaternionT \<Rightarrow> Vector3T \<Rightarrow> Vector3T" where
  "transformVector q v =
     (let uv = cross (vec q) v;
          uv = vec_add uv uv
      in vec_add (vec_add v (vec_scale (qw q) uv)) (cross (vec q) uv))"

text \<open>\<open>rotateVector\<close> ignores \<open>assume_unit_quat\<close>; \<open>rotateVectorReverse\<close> uses the
  conjugate when it is set and the inverse otherwise.\<close>

definition rotateVector :: "Vector3T \<Rightarrow> QuaternionT \<Rightarrow> bool \<Rightarrow> Vector3T" where
  "rotateVector v q assume_unit_quat = transformVector q v"

definition rotateVectorReverse :: "Vector3T \<Rightarrow> QuaternionT \<Rightarrow> bool \<Rightarrow> Vector3T" where
  "rotateVectorReverse v q assume_unit_quat =
     (if \<not> assume_unit_quat then transformVector (inverse_q q) v
      else transformVector (conjugate q) v)"

text \<open>The two overloads of \<open>transformToWorldFrame\<close>: by a quaternion, and by a pose.\<close>

definition transformToWorldFrame_q :: "Vector3T \<Rightarrow> QuaternionT \<Rightarrow> bool \<Rightarrow> Vector3T" where
  "transformToWorldFrame_q v_body q assume_unit_quat = rotateVector v_body q assume_unit_quat"

definition transformToWorldFrame :: "Vector3T \<Rightarrow> Pose \<Rightarrow> bool \<Rightarrow> Vector3T" where
  "transformToWorldFrame v_body pose assume_unit_quat =
     (let translated = vec_add v_body (position pose)
      in transformToWorldFrame_q translated (orientation pose) assume_unit_quat)"

text \<open>\<open>toEulerianAngle\<close> returns its three reference parameters, in the order
  \<open>(pitch, roll, yaw)\<close>. The argument of \<open>asin\<close> is clamped to \<open>[-1, 1]\<close> first, so the
  arc sine is always taken inside its domain.\<close>

definition toEulerianAngle :: "QuaternionT \<Rightarrow> real \<times> real \<times> real" where
  "toEulerianAngle q =
     (let ysqr = qy q * qy q;
          t0 = - 2 * (ysqr + qz q * qz q) + 1;
          t1 = 2 * (qx q * qy q + qw q * qz q);
          t2 = - 2 * (qx q * qz q - qw q * qy q);
          t3 = 2 * (qy q * qz q + qw q * qx q);
          t4 = - 2 * (qx q * qx q + ysqr) + 1;
          t2 = (if t2 > 1 then 1 else t2);
          t2 = (if t2 < - 1 then - 1 else t2)
      in (arcsin t2, atan2 t3 t4, atan2 t1 t0))"


definition getYaw :: "QuaternionT \<Rightarrow> real" where
  "getYaw q = atan2 (2 * (qz q * qw q + qx q * qy q))
                    (- 1 + 2 * (qw q * qw q + qx q * qx q))"

definition getPitch :: "QuaternionT \<Rightarrow> real option" where
  "getPitch q = asin_c (2 * (qy q * qw q - qz q * qx q))"

definition getRoll :: "QuaternionT \<Rightarrow> real" where
  "getRoll q = atan2 (2 * (qz q * qy q + qw q * qx q))
                     (1 - 2 * (qx q * qx q + qy q * qy q))"

definition normalizeAngleDegrees :: "real \<Rightarrow> real" where
  "normalizeAngleDegrees angle =
     (let angle = fmod angle 360 in
      if angle > 180 then angle - 360
      else if angle < - 180 then angle + 360
      else angle)"

section \<open>The ROSFlight controller (controllers/rosflight/RosFlightDroneController.hpp)\<close>

text \<open>
  Modelled from the spec: \<open>AirSimRosFlightBoard\<close> (AirSimRosFlightBoard.hpp is not among
  the sources). The controller uses two of its members: the per-channel raw input setter
  \<open>setInputChannel(index, value)\<close> and the per-actuator getter
  \<open>getMotorControlSignal(index)\<close>. The board is a record of the raw input channels, of the
  sequence of calls of the setter seen so far (oldest first), and of the motor signals,
  which are a parameter.
\<close>

record Board =
  input_channels :: "nat \<Rightarrow> 16 word"
  input_writes :: "(nat \<times> 16 word) list"
  getMotorControlSignal :: "32 word \<Rightarrow> real"

definition setInputChannel :: "nat \<Rightarrow> 16 word \<Rightarrow> Board \<Rightarrow> Board" where
  "setInputChannel index val b =
     b\<lparr>input_channels := (input_channels b)(index := val),
       input_writes := input_writes b @ [(index, val)]\<rparr>"

datatype error = RuntimeError string

text \<open>\<open>getVertexControlSignal\<close>: the \<open>switch\<close> over the \<open>unsigned int\<close> rotor index,
  with the \<open>throw\<close> of its \<open>default\<close> branch as \<open>Inl\<close>.\<close>

definition getVertexControlSignal :: "Board \<Rightarrow> 32 word \<Rightarrow> error + real" where
  "getVertexControlSignal board rotor_index =
     (if rotor_index = 0 then Inr (getMotorControlSignal board 1)
      else if rotor_index = 1 then Inr (getMotorControlSignal board 2)
      else if rotor_index = 2 then Inr (getMotorControlSignal board 3)
      else if rotor_index = 3 then Inr (getMotorControlSignal board 0)
      else Inl (RuntimeError
             ''Rotor index beyond 3 is not supported yet in ROSFlight firmware''))"

text \<open>
  Modelled from the spec: \<open>RCData\<close> (its declaration is not among the sources): a
  connected flag, four analog axes and eight switches. The axes are passed to \<open>float\<close>
  parameters and the switches to \<open>uint\<close> ones.
\<close>

record RCData =
  is_connected :: bool
  roll :: real
  pitch :: real
  yaw :: real
  throttle :: real
  switch1 :: "32 word"
  switch2 :: "32 word"
  switch3 :: "32 word"
  switch4 :: "32 word"
  switch5 :: "32 word"
  switch6 :: "32 word"
  switch7 :: "32 word"
  switch8 :: "32 word"

text \<open>\<open>static_cast<uint16_t>\<close> of a floating value drops the fractional part (rounds toward
  zero); the conversion is undefined when the truncated value does not fit the type, which
  is \<open>None\<close> here. The three conversions to a channel value compute in \<open>float\<close>: each
  product, quotient and sum is rounded to binary32 on its own before the next step (no
  fused multiply-add), and a switch value is converted from \<open>uint\<close> to \<open>float\<close> first. A division by a \<open>maxSwitchVal\<close> of 0
  gives an infinity or NaN, on which the conversion is undefined.\<close>

definition float_to_uint16 :: "real \<Rightarrow> 16 word option" where
  "float_to_uint16 r =
     (if - 1 < r \<and> r < 65536 then Some (word_of_int (trunc_toward_zero r)) else None)"

definition angleToPwm :: "real \<Rightarrow> 16 word option" where
  "angleToPwm angle = float_to_uint16 (fadd (fmul angle 500) 1500)"

definition thrustToPwm :: "real \<Rightarrow> 16 word option" where
  "thrustToPwm thrust =
     float_to_uint16 (fadd (fmul (if thrust < 0 then 0 else thrust) 1000) 1000)"

definition switchToPwm :: "32 word \<Rightarrow> 32 word \<Rightarrow> 16 word option" where
  "switchToPwm switchVal maxSwitchVal =
     (if maxSwitchVal = 0 then None
      else float_to_uint16
             (fadd (fdiv (fmul 1000 (uint_to_float switchVal)) (uint_to_float maxSwitchVal))
                   1000))"

text \<open>\<open>setRCData\<close>: twelve conversions and writes in the source's order when the link is
  connected, nothing otherwise. Every call of \<open>switchToPwm\<close> takes the default
  \<open>maxSwitchVal = 1\<close>.\<close>

definition setRCData :: "RCData \<Rightarrow> Board \<Rightarrow> Board option" where
  "setRCData rcData board =
     (if is_connected rcData then do {
        c0 \<leftarrow> angleToPwm (roll rcData);
        let b = setInputChannel 0 c0 board;
        c1 \<leftarrow> angleToPwm (yaw rcData);
        let b = setInputChannel 1 c1 b;
        c2 \<leftarrow> thrustToPwm (throttle rcData);
        let b = setInputChannel 2 c2 b;
        c3 \<leftarrow> angleToPwm (- pitch rcData);
        let b = setInputChannel 3 c3 b;
        c4 \<leftarrow> switchToPwm (switch1 rcData) 1;
        let b = setInputChannel 4 c4 b;
        c5 \<leftarrow> switchToPwm (switch2 rcData) 1;
        let b = setInputChannel 5 c5 b;
        c6 \<leftarrow> switchToPwm (switch3 rcData) 1;
        let b = setInputChannel 6 c6 b;
        c7 \<leftarrow> switchToPwm (switch4 rcData) 1;
        let b = setInputChannel 7 c7 b;
        c8 \<leftarrow> switchToPwm (switch5 rcData) 1;
        let b = setInputChannel 8 c8 b;
        c9 \<leftarrow> switchToPwm (switch6 rcData) 1;
        let b = setInputChannel 9 c9 b;
        c10 \<leftarrow> switchToPwm (switch7 rcData) 1;
        let b = setInputChannel 10 c10 b;
        c11 \<leftarrow> switchToPwm (switch8 rcData) 1;
        let b = setInputChannel 11 c11 b;
        Some b
      } else Some board)"

text \<open>The inputs on which none of the twelve conversions of \<open>setRCData\<close> is undefined, and
  two concrete inputs: a board with every channel at 0 and no write yet, and a connected
  remote control with every axis and switch at 0.\<close>

definition rc_casts_defined :: "RCData \<Rightarrow> bool" where
  "rc_casts_defined rc \<longleftrightarrow>
     angleToPwm (roll rc) \<noteq> None \<and> angleToPwm (yaw rc) \<noteq> None \<and>
     thrustToPwm (throttle rc) \<noteq> None \<and> angleToPwm (- pitch rc) \<noteq> None \<and>
     list_all (\<lambda>s. switchToPwm s 1 \<noteq> None)
       [switch1 rc, switch2 rc, switch3 rc, switch4 rc,
        switch5 rc, switch6 rc, switch7 rc, switch8 rc]"

definition board_zero :: Board where
  "board_zero = \<lparr>input_channels = (\<lambda>_. 0), input_writes = [], getMotorControlSignal = (\<lambda>_. 0)\<rparr>"

definition rc_centred :: RCData where
  "rc_centred = \<lparr>is_connected = True, roll = 0, pitch = 0, yaw = 0, throttle = 0,
     switch1 = 0, switch2 = 0, switch3 = 0, switch4 = 0,
     switch5 = 0, switch6 = 0, switch7 = 0, switch8 = 0\<rparr>"

section \<open>The environment model (physics/Environment.hpp)\<close>

text \<open>
  Modelled from the spec: \<open>GeoPoint\<close> (its declaration is not among the sources), a
  latitude, a longitude and an altitude. \<open>EarthUtils\<close> is not among the sources either:
  the type of the home reference is a type parameter, and the functions \<open>updateState\<close>
  and \<open>initialize\<close> call are the fields of a record passed as a parameter. The members
  \<open>initial_\<close>, \<open>current_\<close> and \<open>home_geo_point_\<close> of the class are the fields \<open>m_initial\<close>,
  \<open>m_current\<close> and \<open>m_home_geo_point\<close> (a name cannot end with an underscore here).
\<close>

record GeoPoint =
  latitude :: real
  longitude :: real
  altitude :: real

record 'h EarthUtils =
  HomeGeoPoint :: "GeoPoint \<Rightarrow> 'h"
  nedToGeodetic :: "Vector3T \<Rightarrow> 'h \<Rightarrow> GeoPoint"
  getGeopotential :: "real \<Rightarrow> real"
  getStandardTemperature :: "real \<Rightarrow> real"
  getStandardPressure :: "real \<Rightarrow> real \<Rightarrow> real"
  getAirDensity :: "real \<Rightarrow> real \<Rightarrow> real"
  getGravity :: "real \<Rightarrow> real"

record State =
  geo_point :: GeoPoint
  min_z_over_ground :: real
  position :: Vector3T
  gravity :: Vector3T
  air_pressure :: real
  temperature :: real
  air_density :: real

record 'h Environment =
  m_initial :: State
  m_current :: State
  m_home_geo_point :: 'h

definition updateState :: "'h EarthUtils \<Rightarrow> State \<Rightarrow> 'h \<Rightarrow> State" where
  "updateState eu state home_geo_point =
     (let state = state\<lparr>geo_point := nedToGeodetic eu (State.position state) home_geo_point\<rparr>;
          geo_pot = getGeopotential eu (altitude (geo_point state) / 1000);
          state = state\<lparr>temperature := getStandardTemperature eu geo_pot\<rparr>;
          state = state\<lparr>air_pressure := getStandardPressure eu geo_pot (temperature state)\<rparr>;
          state = state\<lparr>air_density := getAirDensity eu (air_pressure state) (temperature state)\<rparr>
      in state\<lparr>gravity := Vector3T 0 0 (getGravity eu (altitude (geo_point state)))\<rparr>)"

definition reset :: "'h Environment \<Rightarrow> 'h Environment" where
  "reset env = env\<lparr>m_current := m_initial env\<rparr>"

definition initialize :: "'h EarthUtils \<Rightarrow> State \<Rightarrow> 'h Environment \<Rightarrow> 'h Environment" where
  "initialize eu initial env =
     (let env = env\<lparr>m_initial := initial\<rparr>;
          env = env\<lparr>m_home_geo_point := HomeGeoPoint eu (geo_point (m_initial env))\<rparr>;
          env = env\<lparr>m_initial := updateState eu (m_initial env) (m_home_geo_point env)\<rparr>
      in reset env)"

definition setPosition :: "Vector3T \<Rightarrow> 'h Environment \<Rightarrow> 'h Environment" where
  "setPosition p env = env\<lparr>m_current := (m_current env)\<lparr>State.position := p\<rparr>\<rparr>"

definition update :: "'h EarthUtils \<Rightarrow> 'h Environment \<Rightarrow> 'h Environment" where
  "update eu env = env\<lparr>m_current := updateState eu (m_current env) (m_home_geo_point env)\<rparr>"

section \<open>Helper lemmas\<close>

lemma word32_lt4_cases:
  fixes i :: "32 word"
  assumes "i < 4"
  shows "i = 0 \<or> i = 1 \<or> i = 2 \<or> i = 3"
proof -
  from assms have "unat i < 4" by (simp add: word_less_nat_alt)
  then consider "unat i = 0" | "unat i = 1" | "unat i = 2" | "unat i = 3" by linarith
  then show ?thesis
  proof cases
    case 1
    then have "word_of_nat (unat i) = (word_of_nat 0 :: 32 word)" by simp
    then show ?thesis by simp
  next
    case 2
    then have "word_of_nat (unat i) = (word_of_nat 1 :: 32 word)" by simp
    then show ?thesis by simp
  next
    case 3
    then have "word_of_nat (unat i) = (word_of_nat 2 :: 32 word)" by simp
    then show ?thesis by simp
  next
    case 4
    then have "word_of_nat (unat i) = (word_of_nat 3 :: 32 word)" by simp
    then show ?thesis by simp
  qed
qed

lemma round_half_even_ge_floor: "\<lfloor>r\<rfloor> \<le> round_half_even r"
  by (simp add: round_half_even_def Let_def)

lemma round_half_even_le_ceiling: "round_half_even r \<le> \<lceil>r\<rceil>"
proof -
  have "r = of_int \<lfloor>r\<rfloor> \<or> \<lceil>r\<rceil> = \<lfloor>r\<rfloor> + 1"
    by (metis ceiling_altdef of_int_floor_cancel)
  moreover have "r = of_int \<lfloor>r\<rfloor> \<Longrightarrow> round_half_even r = \<lfloor>r\<rfloor>"
    by (simp add: round_half_even_def Let_def)
  moreover have "round_half_even r \<le> \<lfloor>r\<rfloor> + 1"
    by (simp add: round_half_even_def Let_def)
  ultimately show ?thesis
    by (metis ceiling_of_int order_refl)
qed

lemma round_half_even_bracket:
  "of_int n \<le> r \<Longrightarrow> n \<le> round_half_even r"
  "r \<le> of_int n \<Longrightarrow> round_half_even r \<le> n"
proof -
  show "n \<le> round_half_even r" if "of_int n \<le> r"
  proof -
    from that have "n \<le> \<lfloor>r\<rfloor>" by (simp add: le_floor_iff)
    with round_half_even_ge_floor [of r] show ?thesis by linarith
  qed
  show "round_half_even r \<le> n" if "r \<le> of_int n"
  proof -
    from that have "\<lceil>r\<rceil> \<le> n" by (simp add: ceiling_le_iff)
    with round_half_even_le_ceiling [of r] show ?thesis by linarith
  qed
qed

lemma binary32_exponent_le:
  assumes "r \<noteq> 0" and "\<bar>r\<bar> * 2 ^ j < 2 ^ 24" and "j \<le> 149"
  shows "binary32_exponent r \<le> 23 - int j"
proof -
  have pos: "0 < \<bar>r\<bar>" using assms(1) by simp
  have "\<bar>r\<bar> < 2 ^ 24 / 2 ^ j" using assms(2) by (simp add: field_simps)
  also have "\<dots> = 2 powr (24 - real j)"
    by (simp add: powr_diff powr_realpow flip: powr_numeral)
  finally have "log 2 \<bar>r\<bar> < 24 - real j"
    using pos by (simp add: log_less_iff)
  then have "\<lfloor>log 2 \<bar>r\<bar>\<rfloor> < 24 - int j"
    by (simp add: floor_less_iff)
  then show ?thesis using assms(3) by (simp add: binary32_exponent_def)
qed

lemma round_binary32_bracket:
  assumes "\<bar>r\<bar> * 2 ^ j < 2 ^ 24" and "j \<le> 149"
  shows "of_int m / 2 ^ j \<le> r \<Longrightarrow> of_int m / 2 ^ j \<le> round_binary32 r"
    and "r \<le> of_int m / 2 ^ j \<Longrightarrow> round_binary32 r \<le> of_int m / 2 ^ j"
proof -
  have *: "(of_int m / 2 ^ j \<le> r \<longrightarrow> of_int m / 2 ^ j \<le> round_binary32 r)
         \<and> (r \<le> of_int m / 2 ^ j \<longrightarrow> round_binary32 r \<le> of_int m / 2 ^ j)"
  proof (cases "r = 0")
    case True
    then show ?thesis by (simp add: round_binary32_def)
  next
    case False
    define e where "e = binary32_exponent r"
    define k where "k = nat (23 - int j - e)"
    have "e \<le> 23 - int j" unfolding e_def using False assms by (rule binary32_exponent_le)
    then have e: "e - 23 = - int (j + k)" unfolding k_def by simp
    define u :: real where "u = 2 ^ (j + k)"
    have u: "0 < u" unfolding u_def by simp
    have "power_int (2::real) (- int (j + k)) = inverse (power_int 2 (int (j + k)))"
      by (rule power_int_minus)
    then have ulp: "power_int 2 (e - 23) = 1 / u"
      unfolding e u_def by (simp only: power_int_of_nat inverse_eq_divide)
    have rb: "round_binary32 r = of_int (round_half_even (r * u)) / u"
      using False by (simp add: round_binary32_def Let_def ulp e_def [symmetric])
    have b: "of_int m / 2 ^ j = of_int (m * 2 ^ k) / u"
      unfolding u_def by (simp add: power_add)
    have lo: "of_int m / 2 ^ j \<le> r \<longrightarrow> of_int m / 2 ^ j \<le> round_binary32 r"
    proof
      assume "of_int m / 2 ^ j \<le> r"
      then have "of_int (m * 2 ^ k) \<le> r * u" unfolding b using u by (simp add: field_simps)
      then have "m * 2 ^ k \<le> round_half_even (r * u)" by (rule round_half_even_bracket)
      then have "real_of_int (m * 2 ^ k) \<le> of_int (round_half_even (r * u))"
        by (simp only: of_int_le_iff)
      then show "of_int m / 2 ^ j \<le> round_binary32 r"
        unfolding b rb using u by (simp add: divide_right_mono)
    qed
    have hi: "r \<le> of_int m / 2 ^ j \<longrightarrow> round_binary32 r \<le> of_int m / 2 ^ j"
    proof
      assume "r \<le> of_int m / 2 ^ j"
      then have "r * u \<le> of_int (m * 2 ^ k)" unfolding b using u by (simp add: field_simps)
      then have "round_half_even (r * u) \<le> m * 2 ^ k" by (rule round_half_even_bracket)
      then have "real_of_int (round_half_even (r * u)) \<le> of_int (m * 2 ^ k)"
        by (simp only: of_int_le_iff)
      then show "round_binary32 r \<le> of_int m / 2 ^ j"
        unfolding b rb using u by (simp add: divide_right_mono)
    qed
    from lo hi show ?thesis ..
  qed
  from * show "of_int m / 2 ^ j \<le> r \<Longrightarrow> of_int m / 2 ^ j \<le> round_binary32 r" by simp
  from * show "r \<le> of_int m / 2 ^ j \<Longrightarrow> round_binary32 r \<le> of_int m / 2 ^ j" by simp
qed


lemma round_binary32_exact:
  assumes "\<bar>real_of_int m / 2 ^ j\<bar> * 2 ^ j < 2 ^ 24" and "j \<le> 149"
  shows "round_binary32 (of_int m / 2 ^ j) = of_int m / 2 ^ j"
  using round_binary32_bracket [OF assms, of m] by (simp add: order_antisym)

lemma round_binary32_of_int:
  assumes "\<bar>m\<bar> < 2 ^ 24"
  shows "round_binary32 (of_int m) = of_int m"
proof -
  have "\<bar>real_of_int m / 2 ^ 0\<bar> * 2 ^ 0 < 2 ^ 24"
    using assms by (simp flip: of_int_abs)
  from round_binary32_exact [OF this] show ?thesis by simp
qed

lemma round_binary32_int_bracket:
  assumes "\<bar>r\<bar> < 2 ^ 24"
  shows "of_int m \<le> r \<Longrightarrow> of_int m \<le> round_binary32 r"
    and "r \<le> of_int m \<Longrightarrow> round_binary32 r \<le> of_int m"
  using round_binary32_bracket [of r 0 m] assms by simp_all

lemma round_half_even_minus: "round_half_even (- r) = - round_half_even r"
proof (cases "r = of_int \<lfloor>r\<rfloor>")
  case True
  then obtain n where r: "r = of_int n" ..
  show ?thesis unfolding r by (simp add: round_half_even_def Let_def flip: of_int_minus)
next
  case False
  then have c: "\<lceil>r\<rceil> = \<lfloor>r\<rfloor> + 1" by (metis ceiling_altdef)
  have f: "\<lfloor>- r\<rfloor> = - \<lfloor>r\<rfloor> - 1" using c by (simp add: ceiling_def)
  show ?thesis
    unfolding round_half_even_def Let_def f
    by (auto simp add: algebra_simps)
qed

lemma binary32_exponent_minus: "binary32_exponent (- r) = binary32_exponent r"
  by (simp add: binary32_exponent_def)

lemma round_binary32_minus: "round_binary32 (- r) = - round_binary32 r"
  by (simp add: round_binary32_def Let_def binary32_exponent_minus round_half_even_minus)

lemma round_binary32_big_pos:
  assumes "2 ^ 24 \<le> r"
  shows "2 ^ 24 \<le> round_binary32 r"
proof -
  have "(0::real) < 2 ^ 24" by simp
  with assms have pos: "0 < r" by linarith
  define e where "e = \<lfloor>log 2 r\<rfloor>"
  have "(2::real) powr 24 \<le> r" using assms by (simp flip: powr_numeral)
  then have "24 \<le> log 2 r" using pos by (simp add: le_log_iff)
  then have e24: "24 \<le> e" unfolding e_def by (simp add: le_floor_iff)
  have "2 powr (real_of_int e) \<le> r"
    using floor_log_eq_powr_iff [of r 2 e] pos unfolding e_def by simp
  define n where "n = nat (e - 23)"
  have en: "e = 23 + int n" unfolding n_def using e24 by simp
  have pe: "2 powr (real_of_int e) = 2 ^ 23 * 2 ^ n"
    unfolding en by (simp add: powr_add powr_realpow flip: powr_numeral)
  have ex: "binary32_exponent r = e"
    using pos e24 by (simp add: binary32_exponent_def e_def [symmetric])
  have ulp: "power_int (2::real) (binary32_exponent r - 23) = 2 ^ n"
    unfolding ex en by simp
  have rb: "round_binary32 r = of_int (round_half_even (r / 2 ^ n)) * 2 ^ n"
    using pos by (simp add: round_binary32_def Let_def ulp)
  have "of_int (2 ^ 23) \<le> r / 2 ^ n"
    using \<open>2 powr (real_of_int e) \<le> r\<close> unfolding pe by (simp add: field_simps)
  then have "2 ^ 23 \<le> round_half_even (r / 2 ^ n)" by (rule round_half_even_bracket)
  then have "real_of_int (2 ^ 23) \<le> of_int (round_half_even (r / 2 ^ n))"
    by (simp only: of_int_le_iff)
  then have "2 ^ 23 * 2 ^ n \<le> round_binary32 r"
    unfolding rb by (simp add: mult_right_mono)
  moreover have "(2::real) ^ 24 \<le> 2 ^ 23 * 2 ^ n"
  proof -
    have "1 \<le> n" unfolding n_def using e24 by simp
    then have "(2::real) ^ 1 \<le> 2 ^ n" by (intro power_increasing) simp_all
    then show ?thesis by simp
  qed
  ultimately show ?thesis by linarith
qed

lemma round_binary32_big_neg:
  assumes "r \<le> - (2 ^ 24)"
  shows "round_binary32 r \<le> - (2 ^ 24)"
proof -
  have "2 ^ 24 \<le> - r" using assms by simp
  from round_binary32_big_pos [OF this] show ?thesis
    by (simp add: round_binary32_minus)
qed

lemma uint_float_to_uint16:
  assumes "float_to_uint16 r = Some c"
  shows "uint c = trunc_toward_zero r"
proof -
  from assms have r: "- 1 < r" "r < 65536" and c: "c = word_of_int (trunc_toward_zero r)"
    by (auto simp add: float_to_uint16_def split: if_splits)
  have "0 \<le> trunc_toward_zero r" using r
    by (simp add: trunc_toward_zero_def)
  moreover have "trunc_toward_zero r < 65536" using r
    by (simp add: trunc_toward_zero_def; linarith)
  ultimately show ?thesis unfolding c
    by (simp add: uint_word_of_int)
qed

lemma round_binary32_big:
  assumes "2 ^ 24 \<le> \<bar>r\<bar>"
  shows "2 ^ 24 \<le> \<bar>round_binary32 r\<bar>"
proof (cases "0 \<le> r")
  case True
  with assms have "2 ^ 24 \<le> r" by simp
  from round_binary32_big_pos [OF this] show ?thesis by simp
next
  case False
  with assms have "r \<le> - (2 ^ 24)" by simp
  from round_binary32_big_neg [OF this] show ?thesis by simp
qed

lemma pwm_bracket:
  assumes v: "float_to_uint16 (round_binary32 (round_binary32 x + of_int k)) = Some v"
    and k: "0 \<le> k" "k < 2 ^ 24"
  shows "\<lfloor>x\<rfloor> + k \<le> uint v \<and> uint v \<le> \<lceil>x\<rceil> + k"
proof -
  define y1 where "y1 = round_binary32 x"
  define y2 where "y2 = round_binary32 (y1 + of_int k)"
  from v have d: "- 1 < y2" "y2 < 65536"
    unfolding y1_def y2_def by (auto simp add: float_to_uint16_def split: if_splits)
  have s: "\<bar>y1 + of_int k\<bar> < 2 ^ 24"
  proof (rule ccontr)
    assume "\<not> \<bar>y1 + of_int k\<bar> < 2 ^ 24"
    then have "2 ^ 24 \<le> \<bar>y1 + of_int k\<bar>" by simp
    from round_binary32_big [OF this] have "2 ^ 24 \<le> \<bar>y2\<bar>" unfolding y2_def .
    with d show False by simp
  qed
  have kr: "0 \<le> real_of_int k" "real_of_int k < 2 ^ 24"
    using k by (simp_all flip: of_int_less_iff of_int_le_iff)
  have x: "\<bar>x\<bar> < 2 ^ 24"
  proof (rule ccontr)
    assume "\<not> \<bar>x\<bar> < 2 ^ 24"
    then have "2 ^ 24 \<le> \<bar>x\<bar>" by simp
    then consider "2 ^ 24 \<le> x" | "x \<le> - (2 ^ 24)" by linarith
    then show False
    proof cases
      case 1
      from round_binary32_big_pos [OF 1] have "2 ^ 24 \<le> y1" unfolding y1_def .
      with s kr show False by simp
    next
      case 2
      from round_binary32_big_neg [OF 2] have y: "y1 \<le> - (2 ^ 24)" unfolding y1_def .
      with kr have "y1 + of_int k \<le> of_int (- 1)" by simp
      from round_binary32_int_bracket(2) [OF s this] have "y2 \<le> - 1"
        unfolding y2_def by simp
      with d show False by simp
    qed
  qed
  have b1: "of_int \<lfloor>x\<rfloor> \<le> y1" "y1 \<le> of_int \<lceil>x\<rceil>"
    unfolding y1_def using round_binary32_int_bracket [OF x] by simp_all
  have "of_int (\<lfloor>x\<rfloor> + k) \<le> y1 + of_int k" "y1 + of_int k \<le> of_int (\<lceil>x\<rceil> + k)"
    using b1 by simp_all
  then have b2: "of_int (\<lfloor>x\<rfloor> + k) \<le> y2" "y2 \<le> of_int (\<lceil>x\<rceil> + k)"
    unfolding y2_def using round_binary32_int_bracket [OF s] by blast+
  have u: "uint v = trunc_toward_zero y2"
    using uint_float_to_uint16 [OF v] unfolding y2_def y1_def .
  have lo: "\<lfloor>x\<rfloor> + k \<le> trunc_toward_zero y2"
  proof (cases "0 \<le> y2")
    case True
    then show ?thesis using b2(1) by (simp add: trunc_toward_zero_def le_floor_iff)
  next
    case False
    then have "y2 < 0" by simp
    with b2(1) have "real_of_int (\<lfloor>x\<rfloor> + k) < 0" by linarith
    then have "\<lfloor>x\<rfloor> + k < 0" by (simp only: of_int_less_0_iff)
    moreover have "\<lceil>y2\<rceil> = 0" using d \<open>y2 < 0\<close> by (simp add: ceiling_eq_iff)
    ultimately show ?thesis using False by (simp add: trunc_toward_zero_def)
  qed
  have hi: "trunc_toward_zero y2 \<le> \<lceil>x\<rceil> + k"
  proof (cases "0 \<le> y2")
    case True
    have "real_of_int \<lfloor>y2\<rfloor> \<le> of_int (\<lceil>x\<rceil> + k)" using b2(2) by linarith
    then have "\<lfloor>y2\<rfloor> \<le> \<lceil>x\<rceil> + k" by (simp only: of_int_le_iff)
    then show ?thesis using True by (simp add: trunc_toward_zero_def)
  next
    case False
    then have "y2 < 0" by simp
    have "real_of_int (- 1) < of_int (\<lceil>x\<rceil> + k)" using b2(2) d by simp
    then have "- 1 < \<lceil>x\<rceil> + k" by (simp only: of_int_less_iff)
    moreover have "\<lceil>y2\<rceil> = 0" using d \<open>y2 < 0\<close> by (simp add: ceiling_eq_iff)
    ultimately show ?thesis using False by (simp add: trunc_toward_zero_def)
  qed
  from lo hi u show ?thesis by simp
qed

lemma angleToPwm_bracket:
  assumes "angleToPwm angle = Some v"
  shows "\<lfloor>500 * angle + 1500\<rfloor> \<le> uint v \<and> uint v \<le> \<lceil>500 * angle + 1500\<rceil>"
proof -
  have v: "float_to_uint16 (round_binary32 (round_binary32 (angle * 500) + of_int 1500)) = Some v"
    using assms by (simp add: angleToPwm_def fadd_def fmul_def)
  have "\<lfloor>angle * 500\<rfloor> + 1500 \<le> uint v \<and> uint v \<le> \<lceil>angle * 500\<rceil> + 1500"
    by (rule pwm_bracket [OF v]) simp_all
  moreover have "\<lfloor>500 * angle + 1500\<rfloor> = \<lfloor>angle * 500\<rfloor> + 1500"
    "\<lceil>500 * angle + 1500\<rceil> = \<lceil>angle * 500\<rceil> + 1500"
    by (simp_all add: mult.commute)
  ultimately show ?thesis by simp
qed

lemma thrustToPwm_bracket:
  assumes "thrustToPwm thrust = Some v"
  shows "\<lfloor>1000 * max 0 thrust + 1000\<rfloor> \<le> uint v \<and> uint v \<le> \<lceil>1000 * max 0 thrust + 1000\<rceil>"
proof -
  have m: "(if thrust < 0 then 0 else thrust) = max 0 thrust" by (simp add: max_def)
  have v: "float_to_uint16 (round_binary32 (round_binary32 (max 0 thrust * 1000) + of_int 1000)) = Some v"
    using assms unfolding thrustToPwm_def m by (simp add: fadd_def fmul_def)
  have "\<lfloor>max 0 thrust * 1000\<rfloor> + 1000 \<le> uint v \<and> uint v \<le> \<lceil>max 0 thrust * 1000\<rceil> + 1000"
    by (rule pwm_bracket [OF v]) simp_all
  moreover have "\<lfloor>1000 * max 0 thrust + 1000\<rfloor> = \<lfloor>max 0 thrust * 1000\<rfloor> + 1000"
    "\<lceil>1000 * max 0 thrust + 1000\<rceil> = \<lceil>max 0 thrust * 1000\<rceil> + 1000"
    by (simp_all add: mult.commute)
  ultimately show ?thesis by simp
qed


lemma round_binary32_numeral:
  "numeral n < (16777216::int) \<Longrightarrow> round_binary32 (numeral n) = numeral n"
  using round_binary32_of_int [of "numeral n"] by simp

lemma round_binary32_0: "round_binary32 0 = 0"
  by (simp add: round_binary32_def)

lemma round_binary32_1: "round_binary32 1 = 1"
  using round_binary32_of_int [of 1] by simp

lemma round_binary32_neg_numeral:
  "numeral n < (16777216::int) \<Longrightarrow> round_binary32 (- numeral n) = - numeral n"
  by (simp add: round_binary32_minus round_binary32_numeral)

lemma pwm_defined:
  assumes x: "of_int lo \<le> x" "x \<le> of_int hi"
    and b: "- (2 ^ 23) < lo" "hi < 2 ^ 23" "0 \<le> k" "k < 2 ^ 23"
    and c: "0 \<le> lo + k" "hi + k < 65536"
  shows "float_to_uint16 (round_binary32 (round_binary32 x + of_int k))
           = Some (word_of_int (trunc_toward_zero (round_binary32 (round_binary32 x + of_int k))))"
proof -
  define y1 where "y1 = round_binary32 x"
  define y2 where "y2 = round_binary32 (y1 + of_int k)"
  have br: "- (2 ^ 23) < real_of_int lo" "real_of_int hi < 2 ^ 23"
    "0 \<le> real_of_int k" "real_of_int k < 2 ^ 23"
    "0 \<le> real_of_int (lo + k)" "real_of_int (hi + k) < 65536"
    using b c by (simp_all flip: of_int_less_iff of_int_le_iff)
  have "\<bar>x\<bar> < 2 ^ 24" using x br by simp
  from round_binary32_int_bracket [OF this] x
  have y1: "of_int lo \<le> y1" "y1 \<le> of_int hi" unfolding y1_def by blast+
  then have y1k: "of_int (lo + k) \<le> y1 + of_int k" "y1 + of_int k \<le> of_int (hi + k)"
    by simp_all
  have "\<bar>y1 + of_int k\<bar> < 2 ^ 24" using y1 br by simp
  from round_binary32_int_bracket [OF this] y1k
  have "of_int (lo + k) \<le> y2" "y2 \<le> of_int (hi + k)" unfolding y2_def by blast+
  then have "- 1 < y2" "y2 < 65536" using br by linarith+
  then show ?thesis unfolding y2_def y1_def by (simp add: float_to_uint16_def)
qed

lemma angleToPwm_defined:
  assumes "- 1 \<le> angle" "angle \<le> 1"
  shows "angleToPwm angle \<noteq> None"
proof -
  have "of_int (- 500) \<le> angle * 500" "angle * 500 \<le> of_int 500" using assms by simp_all
  from pwm_defined [OF this, of 1500] show ?thesis
    by (simp add: angleToPwm_def fadd_def fmul_def)
qed

lemma thrustToPwm_defined:
  assumes "thrust \<le> 1"
  shows "thrustToPwm thrust \<noteq> None"
proof -
  have "of_int 0 \<le> max 0 thrust * 1000" "max 0 thrust * 1000 \<le> of_int 1000"
    using assms by (simp_all add: max_def)
  from pwm_defined [OF this, of 1000]
  have d: "float_to_uint16 (round_binary32 (round_binary32 (max 0 thrust * 1000) + 1000)) \<noteq> None"
    by simp
  have m: "(if thrust < 0 then 0 else thrust) = max 0 thrust" by (simp add: max_def)
  show ?thesis
    unfolding thrustToPwm_def fadd_def fmul_def m using d .
qed

lemma switchToPwm_small:
  assumes "switchVal \<le> 64"
  shows "switchToPwm switchVal 1 = Some (word_of_nat (1000 * unat switchVal + 1000))"
proof -
  define n where "n = unat switchVal"
  have n: "n \<le> 64" unfolding n_def using assms by (simp add: word_le_nat_alt)
  have a: "uint_to_float switchVal = real n"
    unfolding uint_to_float_def n_def [symmetric]
    using round_binary32_of_int [of "int n"] n by simp
  have b: "uint_to_float 1 = 1" by (simp add: uint_to_float_def round_binary32_1)
  have c: "fmul 1000 (real n) = real (1000 * n)"
    unfolding fmul_def using round_binary32_of_int [of "int (1000 * n)"] n by simp
  have d: "fdiv (real (1000 * n)) 1 = real (1000 * n)"
    unfolding fdiv_def using round_binary32_of_int [of "int (1000 * n)"] n by simp
  have e: "fadd (real (1000 * n)) 1000 = real (1000 * n + 1000)"
    unfolding fadd_def using round_binary32_of_int [of "int (1000 * n + 1000)"] n by simp
  have f: "float_to_uint16 (real (1000 * n + 1000)) = Some (word_of_nat (1000 * n + 1000))"
  proof -
    have "real (1000 * n + 1000) < 65536" using n by simp
    moreover have "\<lfloor>real (1000 * n + 1000)\<rfloor> = int (1000 * n + 1000)" by (rule floor_of_nat)
    ultimately show ?thesis
      by (simp add: float_to_uint16_def trunc_toward_zero_def del: of_nat_add of_nat_mult)
  qed
  show ?thesis
    unfolding switchToPwm_def a b c d e f n_def [symmetric] by simp
qed

lemma rc_casts_defined_nominal:
  assumes "- 1 \<le> roll rc" "roll rc \<le> 1" "- 1 \<le> yaw rc" "yaw rc \<le> 1"
    and "- 1 \<le> pitch rc" "pitch rc \<le> 1" "throttle rc \<le> 1"
    and "list_all (\<lambda>s. s \<le> 64)
           [switch1 rc, switch2 rc, switch3 rc, switch4 rc,
            switch5 rc, switch6 rc, switch7 rc, switch8 rc]"
  shows "rc_casts_defined rc"
  using assms
  by (simp add: rc_casts_defined_def angleToPwm_defined thrustToPwm_defined switchToPwm_small)

lemma setRCData_connected_Some:
  assumes "is_connected rc" and "setRCData rc b = Some b'"
  shows "\<exists>c0 c1 c2 c3 c4 c5 c6 c7 c8 c9 c10 c11.
      angleToPwm (roll rc) = Some c0 \<and> angleToPwm (yaw rc) = Some c1 \<and>
      thrustToPwm (throttle rc) = Some c2 \<and> angleToPwm (- pitch rc) = Some c3 \<and>
      switchToPwm (switch1 rc) 1 = Some c4 \<and> switchToPwm (switch2 rc) 1 = Some c5 \<and>
      switchToPwm (switch3 rc) 1 = Some c6 \<and> switchToPwm (switch4 rc) 1 = Some c7 \<and>
      switchToPwm (switch5 rc) 1 = Some c8 \<and> switchToPwm (switch6 rc) 1 = Some c9 \<and>
      switchToPwm (switch7 rc) 1 = Some c10 \<and> switchToPwm (switch8 rc) 1 = Some c11 \<and>
      input_writes b' = input_writes b @
        [(0, c0), (1, c1), (2, c2), (3, c3), (4, c4), (5, c5),
         (6, c6), (7, c7), (8, c8), (9, c9), (10, c10), (11, c11)] \<and>
      input_channels b' = (input_channels b)
        (0 := c0, 1 := c1, 2 := c2, 3 := c3, 4 := c4, 5 := c5,
         6 := c6, 7 := c7, 8 := c8, 9 := c9, 10 := c10, 11 := c11) \<and>
      getMotorControlSignal b' = getMotorControlSignal b"
  using assms
  by (auto simp add: setRCData_def bind_eq_Some_conv Let_def setInputChannel_def)

lemma setRCData_connected_defined:
  assumes "is_connected rc"
  shows "setRCData rc b \<noteq> None \<longleftrightarrow> rc_casts_defined rc"
  using assms
  by (auto simp add: setRCData_def rc_casts_defined_def Let_def bind_eq_None_conv)

lemma word16_of_uint: "uint (v :: 16 word) = numeral n \<Longrightarrow> v = numeral n"
  by (metis word_of_int_uint word_of_int_numeral)

lemma angleToPwm_one_512: "angleToPwm (1 / 512) = Some 1500"
proof -
  have a: "round_binary32 (125 / 128) = 125 / 128"
    using round_binary32_exact [of 125 7] by simp
  have b: "round_binary32 (192125 / 128) = 192125 / 128"
    using round_binary32_exact [of 192125 7] by simp
  have "\<lfloor>192125 / 128 :: real\<rfloor> = 1500" by (simp add: floor_eq_iff)
  then show ?thesis
    by (simp add: angleToPwm_def fadd_def fmul_def a b float_to_uint16_def trunc_toward_zero_def)
qed

lemma angleToPwm_minus_one_512: "angleToPwm (- (1 / 512)) = Some 1499"
proof -
  have a: "round_binary32 (- (125 / 128)) = - (125 / 128)"
    using round_binary32_exact [of "- 125" 7] by simp
  have b: "round_binary32 (191875 / 128) = 191875 / 128"
    using round_binary32_exact [of 191875 7] by simp
  have "\<lfloor>191875 / 128 :: real\<rfloor> = 1499" by (simp add: floor_eq_iff)
  then show ?thesis
    by (simp add: angleToPwm_def fadd_def fmul_def a b float_to_uint16_def trunc_toward_zero_def)
qed

lemma angleToPwm_0: "angleToPwm 0 = Some 1500"
  by (simp add: angleToPwm_def fadd_def fmul_def round_binary32_0 round_binary32_numeral
      float_to_uint16_def trunc_toward_zero_def)

lemma thrustToPwm_0: "thrustToPwm 0 = Some 1000"
  by (simp add: thrustToPwm_def fadd_def fmul_def round_binary32_0 round_binary32_numeral
      float_to_uint16_def trunc_toward_zero_def)

lemma switchToPwm_0: "switchToPwm 0 1 = Some 1000"
  using switchToPwm_small [of 0] by simp

text \<open>Two values on which the rounding decides the integer: at the binary32 value nearest
  to -0.3 the product rounds to -150 and the channel value is 1350, and at the largest
  binary32 value below 1 the sum lies halfway between two binary32 values and rounds to
  2000.\<close>

lemma round_binary32_eval:
  assumes "power_int 2 e \<le> \<bar>r\<bar>" "\<bar>r\<bar> < power_int 2 (e + 1)" "- 126 \<le> e"
  shows "round_binary32 r
           = of_int (round_half_even (r / power_int 2 (e - 23))) * power_int 2 (e - 23)"
proof -
  have "0 < power_int (2::real) e" by simp
  with assms(1) have pos: "0 < \<bar>r\<bar>" by linarith
  have p: "(2::real) powr (real_of_int e) = power_int 2 e"
    "(2::real) powr (real_of_int (e + 1)) = power_int 2 (e + 1)"
    by (rule powr_real_of_int'; simp)+
  have "2 powr (real_of_int e) \<le> \<bar>r\<bar> \<and> \<bar>r\<bar> < 2 powr (real_of_int (e + 1))"
    unfolding p using assms(1,2) by simp
  then have "\<lfloor>log 2 \<bar>r\<bar>\<rfloor> = e"
    using floor_log_eq_powr_iff [of "\<bar>r\<bar>" 2 e] pos by (simp only: of_int_add of_int_1)
  then have "binary32_exponent r = e" using assms(3) by (simp add: binary32_exponent_def)
  then show ?thesis using pos by (simp add: round_binary32_def Let_def)
qed

lemma angleToPwm_minus_03f: "angleToPwm (- (10066330 / 2 ^ 25)) = Some 1350"
proof -
  have a: "round_binary32 (- (10066330 / 2 ^ 25) * 500) = - 150"
    using round_binary32_eval [of 7 "- (10066330 / 2 ^ 25) * 500"]
    by (simp add: round_half_even_def Let_def)
  show ?thesis
    by (simp only: angleToPwm_def fadd_def fmul_def a)
       (simp add: round_binary32_numeral float_to_uint16_def trunc_toward_zero_def)
qed

lemma thrustToPwm_below_one: "thrustToPwm (16777215 / 2 ^ 24) = Some 2000"
proof -
  have a: "round_binary32 (16777215 / 2 ^ 24 * 1000) = 16383999 / 2 ^ 14"
    using round_binary32_eval [of 9 "16777215 / 2 ^ 24 * 1000"]
    by (simp add: round_half_even_def Let_def)
  have b: "round_binary32 (16383999 / 2 ^ 14 + 1000) = 2000"
    using round_binary32_eval [of 10 "16383999 / 2 ^ 14 + 1000"]
    by (simp add: round_half_even_def Let_def)
  have c: "(if (16777215 / 2 ^ 24 :: real) < 0 then 0 else 16777215 / 2 ^ 24)
             = (16777215 / 2 ^ 24 :: real)"
    by simp
  show ?thesis
    by (simp only: thrustToPwm_def fadd_def fmul_def a b c)
       (simp add: float_to_uint16_def trunc_toward_zero_def)
qed

lemma fmod_360_nonneg:
  assumes "0 \<le> a"
  shows "0 \<le> fmod a 360 \<and> fmod a 360 < 360"
proof -
  have n: "trunc_toward_zero (a / 360) = \<lfloor>a / 360\<rfloor>"
    using assms by (simp add: trunc_toward_zero_def)
  define r :: real where "r = of_int \<lfloor>a / 360\<rfloor>"
  have "r \<le> a / 360" "a / 360 < r + 1"
    unfolding r_def by linarith+
  then have "0 \<le> a - 360 * r \<and> a - 360 * r < 360" by linarith
  then show ?thesis unfolding fmod_def n r_def .
qed

lemma fmod_360_neg:
  assumes "a < 0"
  shows "- 360 < fmod a 360 \<and> fmod a 360 \<le> 0"
proof -
  have n: "trunc_toward_zero (a / 360) = \<lceil>a / 360\<rceil>"
    using assms by (simp add: trunc_toward_zero_def)
  define r :: real where "r = of_int \<lceil>a / 360\<rceil>"
  have "a / 360 \<le> r" "r < a / 360 + 1"
    unfolding r_def by linarith+
  then have "- 360 < a - 360 * r \<and> a - 360 * r \<le> 0" by linarith
  then show ?thesis unfolding fmod_def n r_def .
qed

lemma fmod_360_small:
  assumes "- 360 < a" "a < 360"
  shows "fmod a 360 = a"
proof -
  have "trunc_toward_zero (a / 360) = 0"
    using assms by (auto simp add: trunc_toward_zero_def floor_eq_iff ceiling_eq_iff)
  then show ?thesis by (simp add: fmod_def)
qed

lemma normalizeAngleDegrees_range:
  "- 180 \<le> normalizeAngleDegrees a \<and> normalizeAngleDegrees a \<le> 180"
proof (cases "0 \<le> a")
  case True
  from fmod_360_nonneg [OF True] show ?thesis
    by (auto simp add: normalizeAngleDegrees_def Let_def)
next
  case False
  then have "a < 0" by simp
  from fmod_360_neg [OF this] show ?thesis
    by (auto simp add: normalizeAngleDegrees_def Let_def)
qed

lemma normalizeAngleDegrees_fixed:
  assumes "- 180 \<le> s" "s \<le> 180"
  shows "normalizeAngleDegrees s = s"
proof -
  have "fmod s 360 = s" using assms by (intro fmod_360_small) linarith+
  then show ?thesis using assms by (simp add: normalizeAngleDegrees_def Let_def)
qed

lemma normalizeAngleDegrees_370: "normalizeAngleDegrees 370 = 10"
  by (simp add: normalizeAngleDegrees_def fmod_def trunc_toward_zero_def Let_def)

lemma normalizeAngleDegrees_m200: "normalizeAngleDegrees (- 200) = 160"
  by (simp add: normalizeAngleDegrees_def fmod_def trunc_toward_zero_def Let_def)

lemma normalizeAngleDegrees_m180_iff:
  "normalizeAngleDegrees a = - 180 \<longleftrightarrow> (\<exists>k::nat. a = - 180 - 360 * real k)"
proof
  assume N: "normalizeAngleDegrees a = - 180"
  have neg: "a < 0"
  proof (rule ccontr)
    assume "\<not> a < 0"
    then have "0 \<le> a" by simp
    from fmod_360_nonneg [OF this] N show False
      by (auto simp add: normalizeAngleDegrees_def Let_def split: if_splits)
  qed
  from fmod_360_neg [OF neg] N have f: "fmod a 360 = - 180"
    by (auto simp add: normalizeAngleDegrees_def Let_def split: if_splits)
  define n where "n = \<lceil>a / 360\<rceil>"
  have "a / 360 \<le> 0" using neg by simp
  then have "n \<le> 0" unfolding n_def by (simp add: ceiling_le_iff)
  have "trunc_toward_zero (a / 360) = n" using neg by (simp add: trunc_toward_zero_def n_def)
  with f have "a - 360 * of_int n = - 180" by (simp add: fmod_def)
  moreover have "real_of_int n = - real (nat (- n))" using \<open>n \<le> 0\<close> by simp
  ultimately have "a = - 180 - 360 * real (nat (- n))" by linarith
  then show "\<exists>k::nat. a = - 180 - 360 * real k" ..
next
  assume "\<exists>k::nat. a = - 180 - 360 * real k"
  then obtain k :: nat where a: "a = - 180 - 360 * real k" ..
  have "0 \<le> real k" by simp
  then have neg: "a < 0" unfolding a by linarith
  have q: "a / 360 = - (1 / 2) - real k" unfolding a by (simp add: field_simps)
  have "\<lceil>a / 360\<rceil> = - int k" unfolding q by (simp add: ceiling_eq_iff)
  then have "trunc_toward_zero (a / 360) = - int k"
    using neg by (simp add: trunc_toward_zero_def)
  then have "fmod a 360 = - 180" unfolding fmod_def a by simp
  then show "normalizeAngleDegrees a = - 180"
    by (simp add: normalizeAngleDegrees_def Let_def)
qed

lemma unit_pitch_argument:
  assumes "squaredNorm q = 1"
  shows "- 1 \<le> 2 * (qw q * qy q - qx q * qz q) \<and> 2 * (qw q * qy q - qx q * qz q) \<le> 1"
proof -
  from assms have n: "qw q * qw q + qx q * qx q + qy q * qy q + qz q * qz q = 1"
    by (simp add: squaredNorm_def)
  have "0 \<le> (qw q - qy q)\<^sup>2 + (qx q + qz q)\<^sup>2" by simp
  then have a: "2 * (qw q * qy q - qx q * qz q) \<le> 1"
    using n by (simp add: power2_eq_square algebra_simps)
  have "0 \<le> (qw q + qy q)\<^sup>2 + (qx q - qz q)\<^sup>2" by simp
  then have b: "- 1 \<le> 2 * (qw q * qy q - qx q * qz q)"
    using n by (simp add: power2_eq_square algebra_simps)
  from a b show ?thesis by simp
qed











section \<open>Theorems\<close>

text \<open>
  C1. For every body-frame vector and every pose, the pose overload of
  \<open>transformToWorldFrame\<close> translates first and rotates second: its result is
  \<open>rotateVector\<close> of the sum of the vector and the pose's position, by the pose's
  orientation. This is not the rotate-then-translate order: there are a vector and a pose
  on which the two orders differ.
\<close>

theorem transformToWorldFrame_translate_then_rotate:
  "transformToWorldFrame v P assumeUnit
     = rotateVector (vec_add v (Pose.position P)) (orientation P) assumeUnit
   \<and> (\<exists>v' P'. transformToWorldFrame v' P' assumeUnit
        \<noteq> vec_add (rotateVector v' (orientation P') assumeUnit) (Pose.position P'))"
proof
  show "transformToWorldFrame v P assumeUnit
          = rotateVector (vec_add v (Pose.position P)) (orientation P) assumeUnit"
    by (simp add: transformToWorldFrame_def transformToWorldFrame_q_def)
next
  let ?P = "\<lparr>Pose.position = Vector3T 1 0 0, orientation = QuaternionT 0 0 0 1\<rparr>"
  have "transformToWorldFrame (Vector3T 0 0 0) ?P assumeUnit
          \<noteq> vec_add (rotateVector (Vector3T 0 0 0) (orientation ?P) assumeUnit) (Pose.position ?P)"
    by (simp add: transformToWorldFrame_def transformToWorldFrame_q_def rotateVector_def
        transformVector_def vec_add_def vec_scale_def cross_def vec_def)
  then show "\<exists>v' P'. transformToWorldFrame v' P' assumeUnit
        \<noteq> vec_add (rotateVector v' (orientation P') assumeUnit) (Pose.position P')"
    by blast
qed

text \<open>
  C2. \<open>getVertexControlSignal\<close> raises exactly when the rotor index is 4 or more. On the
  indices 0, 1, 2 and 3 it returns the board's motor control signal at the QuadX index
  1, 2, 3 and 0.
\<close>

theorem getVertexControlSignal_raises_iff_beyond_3:
  "(isl (getVertexControlSignal b i) \<longleftrightarrow> 4 \<le> i)
  \<and> getVertexControlSignal b 0 = Inr (getMotorControlSignal b 1)
  \<and> getVertexControlSignal b 1 = Inr (getMotorControlSignal b 2)
  \<and> getVertexControlSignal b 2 = Inr (getMotorControlSignal b 3)
  \<and> getVertexControlSignal b 3 = Inr (getMotorControlSignal b 0)"
proof -
  have "i < 4 \<longleftrightarrow> i = 0 \<or> i = 1 \<or> i = 2 \<or> i = 3"
    using word32_lt4_cases[of i] by auto
  then show ?thesis
    by (auto simp add: getVertexControlSignal_def not_le[symmetric])
qed

text \<open>
  C3. When the remote control is not connected, \<open>setRCData\<close> returns the board as it
  was, whatever the axes and switches hold: no call of the input-channel setter is added
  to the board's sequence of writes and every channel keeps its value.
\<close>

theorem setRCData_disconnected_no_writes:
  assumes "\<not> is_connected rc"
  shows "setRCData rc b = Some b
       \<and> map_option input_writes (setRCData rc b) = Some (input_writes b)
       \<and> map_option input_channels (setRCData rc b) = Some (input_channels b)"
  using assms by (simp add: setRCData_def)

text \<open>The hypothesis holds for a disconnected remote control with a roll of 1000 and a
  switch at 70, on a board whose channel 0 was set to 2000 before.\<close>

theorem setRCData_disconnected_no_writes_witness:
  "\<not> is_connected (rc_centred\<lparr>is_connected := False, roll := 1000, switch3 := 70\<rparr>)
   \<and> setRCData (rc_centred\<lparr>is_connected := False, roll := 1000, switch3 := 70\<rparr>)
        (setInputChannel 0 2000 board_zero) = Some (setInputChannel 0 2000 board_zero)"
  using setRCData_disconnected_no_writes [of "rc_centred\<lparr>is_connected := False, roll := 1000, switch3 := 70\<rparr>"
              "setInputChannel 0 2000 board_zero"]
  by (simp add: rc_centred_def)

text \<open>
  C4, as stated, fails: \<open>fmod\<close> keeps -180 as it is and the test \<open>angle < -180\<close> is strict,
  so -180 is returned for -180, outside the half-open interval \<open>(-180, 180]\<close>.
\<close>

theorem normalizeAngleDegrees_minus_180_counterexample:
  "\<not> (- 180 < normalizeAngleDegrees (- 180) \<and> normalizeAngleDegrees (- 180) \<le> 180)"
proof -
  have "normalizeAngleDegrees (- 180) = - 180"
    by (rule normalizeAngleDegrees_fixed) simp_all
  then show ?thesis by simp
qed

text \<open>
  C4, amended. \<open>normalizeAngleDegrees\<close> is idempotent and its result lies in the closed
  interval \<open>[-180, 180]\<close>; the value -180 is returned exactly for the inputs
  \<open>-180 - 360 * k\<close> with \<open>k = 0, 1, 2, ...\<close>, so every other input has its result in
  \<open>(-180, 180]\<close>. 370 maps to 10 and -200 maps to 160.
\<close>

theorem normalizeAngleDegrees_idempotent_closed_range:
  "normalizeAngleDegrees (normalizeAngleDegrees a) = normalizeAngleDegrees a
   \<and> - 180 \<le> normalizeAngleDegrees a \<and> normalizeAngleDegrees a \<le> 180
   \<and> (normalizeAngleDegrees a = - 180) = (\<exists>k::nat. a = - 180 - 360 * real k)
   \<and> normalizeAngleDegrees 370 = 10 \<and> normalizeAngleDegrees (- 200) = 160"
  using normalizeAngleDegrees_range [of a] normalizeAngleDegrees_m180_iff [of a]
    normalizeAngleDegrees_370 normalizeAngleDegrees_m200
  by (simp add: normalizeAngleDegrees_fixed)

text \<open>
  C5. For every unit quaternion, \<open>getPitch\<close>, \<open>getRoll\<close> and \<open>getYaw\<close> return the pitch,
  the roll and the yaw that \<open>toEulerianAngle\<close> returns. Over the reals the agreement is
  exact and needs no restriction to non-singular attitudes.
\<close>

theorem euler_extractions_agree_unit:
  assumes "squaredNorm q = 1"
  shows "getPitch q = Some (fst (toEulerianAngle q))
       \<and> getRoll q = fst (snd (toEulerianAngle q))
       \<and> getYaw q = snd (snd (toEulerianAngle q))"
proof -
  from assms have n: "qw q * qw q + qx q * qx q + qy q * qy q + qz q * qz q = 1"
    by (simp add: squaredNorm_def)
  note b = unit_pitch_argument [OF assms]
  have t2: "- 2 * (qx q * qz q - qw q * qy q) = 2 * (qw q * qy q - qx q * qz q)"
    by (simp add: algebra_simps)
  have g2: "2 * (qy q * qw q - qz q * qx q) = 2 * (qw q * qy q - qx q * qz q)"
    by (simp add: algebra_simps)
  have pitch: "getPitch q = Some (fst (toEulerianAngle q))"
    using b unfolding getPitch_def toEulerianAngle_def Let_def t2 g2 asin_c_def
    by auto
  have roll: "getRoll q = fst (snd (toEulerianAngle q))"
    by (simp add: getRoll_def toEulerianAngle_def Let_def algebra_simps)
  have y0: "- 1 + 2 * (qw q * qw q + qx q * qx q) = - 2 * (qy q * qy q + qz q * qz q) + 1"
    using n by (simp add: algebra_simps)
  have y1: "2 * (qz q * qw q + qx q * qy q) = 2 * (qx q * qy q + qw q * qz q)"
    by (simp add: algebra_simps)
  have yaw: "getYaw q = snd (snd (toEulerianAngle q))"
    unfolding getYaw_def toEulerianAngle_def Let_def y0 y1 by simp
  from pitch roll yaw show ?thesis by simp
qed

text \<open>The hypothesis holds for the unit quaternion \<open>(1/2, 1/2, 1/2, 1/2)\<close>, whose angles
  are a pitch of 0 and a roll and a yaw of \<open>\<pi>/2\<close>.\<close>

theorem euler_extractions_agree_unit_witness:
  "squaredNorm (QuaternionT (1/2) (1/2) (1/2) (1/2)) = 1
   \<and> toEulerianAngle (QuaternionT (1/2) (1/2) (1/2) (1/2)) = (0, pi / 2, pi / 2)
   \<and> getPitch (QuaternionT (1/2) (1/2) (1/2) (1/2)) = Some 0
   \<and> getRoll (QuaternionT (1/2) (1/2) (1/2) (1/2)) = pi / 2
   \<and> getYaw (QuaternionT (1/2) (1/2) (1/2) (1/2)) = pi / 2"
  using euler_extractions_agree_unit [of "QuaternionT (1/2) (1/2) (1/2) (1/2)"]
  by (simp add: squaredNorm_def toEulerianAngle_def atan2_def Let_def)

text \<open>
  C6. For every unit quaternion \<open>q\<close> and every vector \<open>v\<close>, rotating \<open>v\<close> by \<open>q\<close> and the
  result back with \<open>rotateVectorReverse\<close>, both with \<open>assume_unit_quat\<close> set, gives \<open>v\<close>.
  Over the reals the equality is exact.
\<close>

theorem rotateVectorReverse_rotateVector_unit:
  assumes "squaredNorm q = 1"
  shows "rotateVectorReverse (rotateVector v q True) q True = v"
proof -
  obtain w a b c where q: "q = QuaternionT w a b c" by (cases q)
  obtain x y z where v: "v = Vector3T x y z" by (cases v)
  from assms have n: "w * w + a * a + b * b + c * c = 1" by (simp add: q squaredNorm_def)
  show ?thesis
    unfolding q v rotateVectorReverse_def rotateVector_def transformVector_def
    apply (simp add: conjugate_def vec_def cross_def vec_add_def vec_scale_def Let_def)
    using n apply (intro conjI)
      apply algebra+
    done
qed

text \<open>The hypothesis holds for the unit quaternion \<open>(1/2, 1/2, 1/2, 1/2)\<close>, which sends
  \<open>(1, 2, 3)\<close> to \<open>(3, 1, 2)\<close> and back.\<close>

theorem rotateVectorReverse_rotateVector_unit_witness:
  "squaredNorm (QuaternionT (1/2) (1/2) (1/2) (1/2)) = 1
   \<and> rotateVector (Vector3T 1 2 3) (QuaternionT (1/2) (1/2) (1/2) (1/2)) True = Vector3T 3 1 2
   \<and> rotateVectorReverse (Vector3T 3 1 2) (QuaternionT (1/2) (1/2) (1/2) (1/2)) True
       = Vector3T 1 2 3"
  using rotateVectorReverse_rotateVector_unit [of "QuaternionT (1/2) (1/2) (1/2) (1/2)" "Vector3T 1 2 3"]
  by (simp add: squaredNorm_def rotateVector_def transformVector_def vec_def cross_def
      vec_add_def vec_scale_def Let_def)




text \<open>
  C8. \<open>initialize\<close> sets the home geo-point from the initial state's geo-point, and
  \<open>reset\<close>, \<open>update\<close> and \<open>setPosition\<close> leave it as it is. \<open>update\<close> keeps the position, and
  after it the geo-point, temperature, air pressure, air density and gravity of the
  current state are a function of the position and the home geo-point alone; the gravity
  vector is \<open>(0, 0, g)\<close> with \<open>g\<close> the gravity at the new altitude.
\<close>

theorem Environment_home_fixed_derived_pure:
  "m_home_geo_point (initialize eu s env) = HomeGeoPoint eu (geo_point s)
   \<and> m_home_geo_point (reset env) = m_home_geo_point env
   \<and> m_home_geo_point (update eu env) = m_home_geo_point env
   \<and> m_home_geo_point (setPosition p env) = m_home_geo_point env
   \<and> State.position (m_current (update eu env)) = State.position (m_current env)
   \<and> (\<exists>F. \<forall>e. (let c = m_current (update eu e)
               in (geo_point c, temperature c, air_pressure c, air_density c, gravity c))
             = F (State.position (m_current e)) (m_home_geo_point e))
   \<and> gravity (m_current (update eu env))
       = Vector3T 0 0 (getGravity eu (altitude (geo_point (m_current (update eu env)))))"
proof -
  let ?F = "\<lambda>p h. (let c = updateState eu \<lparr>geo_point = undefined, min_z_over_ground = 0,
                 position = p, gravity = undefined, air_pressure = 0, temperature = 0,
                 air_density = 0\<rparr> h
               in (geo_point c, temperature c, air_pressure c, air_density c, gravity c))"
  have "\<exists>F. \<forall>e. (let c = m_current (update eu e)
               in (geo_point c, temperature c, air_pressure c, air_density c, gravity c))
             = F (State.position (m_current e)) (m_home_geo_point e)"
    by (rule exI [of _ ?F]) (simp add: update_def updateState_def Let_def)
  then show ?thesis
    by (simp add: initialize_def reset_def update_def setPosition_def updateState_def Let_def)
qed

text \<open>
  C9, as stated, fails: a channel holds a 16-bit unsigned integer. A roll of 1/512 is a
  binary32 value, \<open>500 * roll + 1500 = 192125 / 128\<close> (1500.9765625) is computed without
  rounding, and channel 0 receives 1500.
\<close>

theorem setRCData_roll_not_exact_counterexample:
  "is_connected (rc_centred\<lparr>roll := 1 / 512\<rparr>)
   \<and> map_option (\<lambda>b'. real_of_int (uint (input_channels b' 0)))
        (setRCData (rc_centred\<lparr>roll := 1 / 512\<rparr>) board_zero) = Some 1500
   \<and> 500 * roll (rc_centred\<lparr>roll := 1 / 512\<rparr>) + 1500 = 192125 / 128"
  by (simp add: rc_centred_def board_zero_def setRCData_def angleToPwm_one_512 angleToPwm_0
      thrustToPwm_0 switchToPwm_0 setInputChannel_def)

text \<open>
  C9, amended. For every connected remote control on which the twelve conversions of
  \<open>setRCData\<close> are defined, \<open>setRCData\<close> returns, and channel 0 holds the single-precision
  value of \<open>roll * 500 + 1500\<close> truncated toward zero. That integer is \<open>500 * roll + 1500\<close>
  when this is a whole number, and one of the two whole numbers next to it otherwise: a
  roll of 1 gives 2000, of -1 gives 1000, of 0 gives 1500. Channel 2 holds the
  single-precision value of \<open>max 0 throttle * 1000 + 1000\<close> truncated toward zero, related
  to \<open>1000 * max 0 throttle + 1000\<close> in the same way: the throttle is clamped at 0 from
  below, 1 gives 2000, and a throttle in \<open>[0, 1]\<close> gives a value in \<open>[1000, 2000]\<close>.
\<close>

theorem setRCData_roll_throttle_channels:
  assumes "is_connected rc" and "rc_casts_defined rc"
  shows "\<exists>b'. setRCData rc b = Some b'
     \<and> uint (input_channels b' 0) = trunc_toward_zero (fadd (fmul (roll rc) 500) 1500)
     \<and> \<lfloor>500 * roll rc + 1500\<rfloor> \<le> uint (input_channels b' 0)
     \<and> uint (input_channels b' 0) \<le> \<lceil>500 * roll rc + 1500\<rceil>
     \<and> (roll rc = 1 \<longrightarrow> input_channels b' 0 = 2000)
     \<and> (roll rc = - 1 \<longrightarrow> input_channels b' 0 = 1000)
     \<and> (roll rc = 0 \<longrightarrow> input_channels b' 0 = 1500)
     \<and> uint (input_channels b' 2)
         = trunc_toward_zero (fadd (fmul (max 0 (throttle rc)) 1000) 1000)
     \<and> \<lfloor>1000 * max 0 (throttle rc) + 1000\<rfloor> \<le> uint (input_channels b' 2)
     \<and> uint (input_channels b' 2) \<le> \<lceil>1000 * max 0 (throttle rc) + 1000\<rceil>
     \<and> (throttle rc \<le> 0 \<longrightarrow> input_channels b' 2 = 1000)
     \<and> (throttle rc = 1 \<longrightarrow> input_channels b' 2 = 2000)
     \<and> (0 \<le> throttle rc \<and> throttle rc \<le> 1 \<longrightarrow>
          1000 \<le> uint (input_channels b' 2) \<and> uint (input_channels b' 2) \<le> 2000)"
proof -
  from assms setRCData_connected_defined [of rc b]
  obtain b' where b': "setRCData rc b = Some b'" by auto
  from setRCData_connected_Some [OF assms(1) b']
  obtain c0 c2 where c0: "angleToPwm (roll rc) = Some c0"
    and c2: "thrustToPwm (throttle rc) = Some c2"
    and ch: "input_channels b' 0 = c0" "input_channels b' 2 = c2"
    by auto
  have u0: "uint c0 = trunc_toward_zero (fadd (fmul (roll rc) 500) 1500)"
    using c0 unfolding angleToPwm_def by (rule uint_float_to_uint16)
  note r0 = angleToPwm_bracket [OF c0]
  have m: "(if throttle rc < 0 then 0 else throttle rc) = max 0 (throttle rc)"
    by (simp add: max_def)
  have u2: "uint c2 = trunc_toward_zero (fadd (fmul (max 0 (throttle rc)) 1000) 1000)"
    using c2 unfolding thrustToPwm_def m by (rule uint_float_to_uint16)
  note r2 = thrustToPwm_bracket [OF c2]
  have e0: "roll rc = 1 \<longrightarrow> c0 = 2000" "roll rc = - 1 \<longrightarrow> c0 = 1000" "roll rc = 0 \<longrightarrow> c0 = 1500"
    using r0 by (auto intro: word16_of_uint)
  have e2: "throttle rc \<le> 0 \<longrightarrow> c2 = 1000" "throttle rc = 1 \<longrightarrow> c2 = 2000"
  proof -
    show "throttle rc \<le> 0 \<longrightarrow> c2 = 1000"
    proof
      assume "throttle rc \<le> 0"
      then have "max 0 (throttle rc) = 0" by simp
      with r2 have "uint c2 = 1000" by simp
      then show "c2 = 1000" by (rule word16_of_uint)
    qed
    show "throttle rc = 1 \<longrightarrow> c2 = 2000"
      using r2 by (auto intro: word16_of_uint)
  qed
  have g2: "0 \<le> throttle rc \<and> throttle rc \<le> 1 \<longrightarrow> 1000 \<le> uint c2 \<and> uint c2 \<le> 2000"
  proof
    assume t: "0 \<le> throttle rc \<and> throttle rc \<le> 1"
    then have "1000 \<le> \<lfloor>1000 * max 0 (throttle rc) + 1000\<rfloor>"
      "\<lceil>1000 * max 0 (throttle rc) + 1000\<rceil> \<le> 2000"
      by (simp_all add: le_floor_iff ceiling_le_iff max_def)
    with r2 show "1000 \<le> uint c2 \<and> uint c2 \<le> 2000" by linarith
  qed
  show ?thesis
    using b' ch u0 u2 r0 r2 e0 e2 g2 by simp
qed

text \<open>The hypotheses hold at a roll of 1 and a throttle of -1/2.\<close>

theorem setRCData_roll_throttle_channels_witness:
  "is_connected (rc_centred\<lparr>roll := 1, throttle := - 1 / 2\<rparr>)
   \<and> rc_casts_defined (rc_centred\<lparr>roll := 1, throttle := - 1 / 2\<rparr>)
   \<and> (\<exists>b'. setRCData (rc_centred\<lparr>roll := 1, throttle := - 1 / 2\<rparr>) board_zero = Some b'
          \<and> input_channels b' 0 = 2000 \<and> input_channels b' 2 = 1000)"
proof -
  have c: "is_connected (rc_centred\<lparr>roll := 1, throttle := - 1 / 2\<rparr>)"
    by (simp add: rc_centred_def)
  have d: "rc_casts_defined (rc_centred\<lparr>roll := 1, throttle := - 1 / 2\<rparr>)"
    by (rule rc_casts_defined_nominal) (simp_all add: rc_centred_def)
  from setRCData_roll_throttle_channels [OF c d, of board_zero] c d show ?thesis
    by (auto simp add: rc_centred_def)
qed

text \<open>
  C10, as stated, fails for the same reason: a pitch of 1/512 gives
  \<open>500 * (- pitch) + 1500 = 191875 / 128\<close> (1499.0234375), computed without rounding, and
  channel 3 receives 1499.
\<close>

theorem setRCData_pitch_not_exact_counterexample:
  "is_connected (rc_centred\<lparr>pitch := 1 / 512\<rparr>)
   \<and> map_option (\<lambda>b'. real_of_int (uint (input_channels b' 3)))
        (setRCData (rc_centred\<lparr>pitch := 1 / 512\<rparr>) board_zero) = Some 1499
   \<and> 500 * (- pitch (rc_centred\<lparr>pitch := 1 / 512\<rparr>)) + 1500 = 191875 / 128"
  by (simp add: rc_centred_def board_zero_def setRCData_def angleToPwm_minus_one_512 angleToPwm_0
      thrustToPwm_0 switchToPwm_0 setInputChannel_def)

text \<open>
  C10, amended. For every connected remote control on which the twelve conversions are
  defined, \<open>setRCData\<close> returns, and channel 3 holds the single-precision value of
  \<open>(- pitch) * 500 + 1500\<close> truncated toward zero. That integer is \<open>500 * (- pitch) + 1500\<close>
  when this is a whole number, and one of the two whole numbers next to it otherwise: a
  pitch of 1 gives 1000 and of -1 gives 2000, the opposite direction of the roll on
  channel 0. Channel 1 holds the conversion of the yaw and channel 2 the conversion of
  the throttle.
\<close>

theorem setRCData_pitch_negated_channels:
  assumes "is_connected rc" and "rc_casts_defined rc"
  shows "\<exists>b'. setRCData rc b = Some b'
     \<and> uint (input_channels b' 3) = trunc_toward_zero (fadd (fmul (- pitch rc) 500) 1500)
     \<and> \<lfloor>500 * (- pitch rc) + 1500\<rfloor> \<le> uint (input_channels b' 3)
     \<and> uint (input_channels b' 3) \<le> \<lceil>500 * (- pitch rc) + 1500\<rceil>
     \<and> (pitch rc = 1 \<longrightarrow> input_channels b' 3 = 1000)
     \<and> (pitch rc = - 1 \<longrightarrow> input_channels b' 3 = 2000)
     \<and> (roll rc = pitch rc \<and> pitch rc = 1 \<longrightarrow>
           input_channels b' 0 = 2000 \<and> input_channels b' 3 = 1000)
     \<and> angleToPwm (yaw rc) = Some (input_channels b' 1)
     \<and> thrustToPwm (throttle rc) = Some (input_channels b' 2)"
proof -
  from assms setRCData_connected_defined [of rc b]
  obtain b' where b': "setRCData rc b = Some b'" by auto
  from setRCData_connected_Some [OF assms(1) b']
  obtain c0 c1 c2 c3 where c0: "angleToPwm (roll rc) = Some c0"
    and c1: "angleToPwm (yaw rc) = Some c1"
    and c2: "thrustToPwm (throttle rc) = Some c2"
    and c3: "angleToPwm (- pitch rc) = Some c3"
    and ch: "input_channels b' 0 = c0" "input_channels b' 1 = c1"
            "input_channels b' 2 = c2" "input_channels b' 3 = c3"
    by auto
  have u3: "uint c3 = trunc_toward_zero (fadd (fmul (- pitch rc) 500) 1500)"
    using c3 unfolding angleToPwm_def by (rule uint_float_to_uint16)
  note r3 = angleToPwm_bracket [OF c3]
  note r0 = angleToPwm_bracket [OF c0]
  have e3: "pitch rc = 1 \<longrightarrow> c3 = 1000" "pitch rc = - 1 \<longrightarrow> c3 = 2000"
    using r3 by (auto intro: word16_of_uint)
  have e0: "roll rc = 1 \<longrightarrow> c0 = 2000"
    using r0 by (auto intro: word16_of_uint)
  show ?thesis
    using b' ch c1 c2 u3 r3 e3 e0 by simp
qed

text \<open>The hypotheses hold at a roll of 1 and a pitch of 1.\<close>

theorem setRCData_pitch_negated_channels_witness:
  "is_connected (rc_centred\<lparr>roll := 1, pitch := 1\<rparr>)
   \<and> rc_casts_defined (rc_centred\<lparr>roll := 1, pitch := 1\<rparr>)
   \<and> (\<exists>b'. setRCData (rc_centred\<lparr>roll := 1, pitch := 1\<rparr>) board_zero = Some b'
          \<and> input_channels b' 0 = 2000 \<and> input_channels b' 3 = 1000)"
proof -
  have c: "is_connected (rc_centred\<lparr>roll := 1, pitch := 1\<rparr>)"
    by (simp add: rc_centred_def)
  have d: "rc_casts_defined (rc_centred\<lparr>roll := 1, pitch := 1\<rparr>)"
    by (rule rc_casts_defined_nominal) (simp_all add: rc_centred_def)
  from setRCData_pitch_negated_channels [OF c d, of board_zero] c d show ?thesis
    by (auto simp add: rc_centred_def)
qed

end
